theory Spec2Isabelle
  imports Complex_Main "HOL-Library.Char_ord" "HOL-Library.List_Lexorder"
begin

section \<open>Colour model (colorExtraction.js)\<close>

text \<open>
  An HSL colour is the JavaScript array \<open>[h, s, l]\<close> returned by \<open>rgbToHsl\<close>, whose
  three components are produced by \<open>Math.round\<close> and are therefore integers.
\<close>

type_synonym hsl = "int \<times> int \<times> int"

text \<open>
  \<open>isNeutralColor\<close>: three guarded early returns followed by \<open>return false\<close>.
\<close>

fun isNeutralColor :: "hsl \<Rightarrow> bool" where
  "isNeutralColor (h, s, l) =
     (if s < 12 then True
      else if l > 85 \<or> l < 15 then True
      else if h \<ge> 30 \<and> h \<le> 60 \<and> s < 40 then True
      else False)"

section \<open>Pairwise harmony (colorMatching.js)\<close>

definition hueDifference :: "int \<Rightarrow> int \<Rightarrow> int" where
  "hueDifference h1 h2 = (let diff = \<bar>h1 - h2\<bar> in min diff (360 - diff))"

text \<open>
  \<open>calculateColorHarmony\<close> keeps a mutable \<open>score\<close> that three consecutive statements
  may increase; each \<open>let\<close> below is one of those statements.
\<close>

fun calculateColorHarmony :: "hsl \<Rightarrow> hsl \<Rightarrow> bool \<Rightarrow> int" where
  "calculateColorHarmony (h1, s1, l1) (h2, s2, l2) isFormalContext =
     (let score0 = 0;
          hueDistance = hueDifference h1 h2;
          isNeutral1 = isNeutralColor (h1, s1, l1);
          isNeutral2 = isNeutralColor (h2, s2, l2);
          score1 = (if hueDistance \<ge> 150 \<and> hueDistance \<le> 210 then score0 + 2
                    else if hueDistance \<le> 30 then score0 + 1
                    else score0);
          score2 = (if (l1 < 30 \<and> l2 > 70) \<or> (l2 < 30 \<and> l1 > 70) then score1 + 1
                    else score1);
          score3 = (if isNeutral1 \<or> isNeutral2
                    then (if isFormalContext then score2 + 1 else score2)
                    else score2)
      in score3)"

section \<open>Strings as the scorer uses them\<close>

text \<open>
  Strings are byte lists. \<open>toLowerCase\<close> and \<open>toUpperCase\<close> are modelled on the
  ASCII letters, which is what the category names consist of.
\<close>

definition toLowerCase_char :: "char \<Rightarrow> char" where
  "toLowerCase_char c =
     (let n = (of_char c :: nat) in if 65 \<le> n \<and> n \<le> 90 then char_of (n + 32) else c)"

definition toUpperCase_char :: "char \<Rightarrow> char" where
  "toUpperCase_char c =
     (let n = (of_char c :: nat) in if 97 \<le> n \<and> n \<le> 122 then char_of (n - 32) else c)"

definition toLowerCase :: "string \<Rightarrow> string" where
  "toLowerCase s = map toLowerCase_char s"

text \<open>\<open>Array.prototype.join\<close> on an array of strings.\<close>

fun join :: "string \<Rightarrow> string list \<Rightarrow> string" where
  "join sep [] = []"
| "join sep [x] = x"
| "join sep (x # y # ys) = x @ sep @ join sep (y # ys)"

text \<open>
  \<open>s.split(': ')\<close>: the pieces of \<open>s\<close> between the successive occurrences of a colon
  followed by a space, scanned from the left; \<open>cur\<close> is the piece being read.
\<close>

fun split_colon_space :: "string \<Rightarrow> string \<Rightarrow> string list" where
  "split_colon_space cur [] = [cur]"
| "split_colon_space cur [c] = [cur @ [c]]"
| "split_colon_space cur (c # d # cs) =
     (if c = CHR '':'' \<and> d = CHR '' '' then cur # split_colon_space [] cs
      else split_colon_space (cur @ [c]) (d # cs))"

text \<open>
  A value placed in a template literal or appended to a string: a missing property or
  array element is \<open>undefined\<close> and renders as the text "undefined".
\<close>

definition render :: "string option \<Rightarrow> string" where
  "render v = (case v of None \<Rightarrow> ''undefined'' | Some s \<Rightarrow> s)"

definition element1 :: "string list \<Rightarrow> string option" where
  "element1 xs = (case xs of _ # y # _ \<Rightarrow> Some y | _ \<Rightarrow> None)"

text \<open>Decimal rendering of a non-negative integer count.\<close>

definition digit_char :: "nat \<Rightarrow> char" where
  "digit_char d = char_of (48 + d)"

fun number_string :: "nat \<Rightarrow> string" where
  "number_string n = (if n < 10 then [digit_char n]
                      else number_string (n div 10) @ [digit_char (n mod 10)])"

declare number_string.simps [simp del]

text \<open>The em dash U+2014 of the explanation texts, as its three UTF-8 bytes.\<close>

definition emdash :: string where
  "emdash = [CHR 0xE2, CHR 0x80, CHR 0x94]"

section \<open>Wardrobe items\<close>

text \<open>
  A wardrobe item is a plain object. The scorer reads \<open>id\<close>, \<open>category\<close>, \<open>hsl\<close> and
  \<open>hex\<close>; the upload path stores the colour under \<open>dominantColorHex\<close>. A property an
  object may lack is an option: \<open>hex = None\<close> is an object with no \<open>hex\<close> property.
  The remaining display fields (\<open>fileName\<close>, \<open>dataUrl\<close>, \<open>rgb\<close>, \<open>addedAt\<close>) are read by
  no function modelled here.
\<close>

record item =
  item_id :: string
  category :: string
  dominantColorHex :: "string option"
  hex :: "string option"
  hsl :: hsl

text \<open>
  The object literal \<open>newItem\<close> of UploadWardrobe.jsx, from the generated identifier, the
  category key of the upload card and the extracted colour data.
\<close>

definition newItem :: "string \<Rightarrow> string \<Rightarrow> string \<Rightarrow> hsl \<Rightarrow> item" where
  "newItem ident cat colorHex colorHsl =
     \<lparr> item_id = ident,
       category = (case cat of [] \<Rightarrow> [] | c # cs \<Rightarrow> toUpperCase_char c # cs),
       dominantColorHex = Some colorHex,
       hex = None,
       hsl = colorHsl \<rparr>"

section \<open>Outfit scoring (colorMatching.js)\<close>

text \<open>The local variables that the two nested loops of \<open>scoreOutfitCombination\<close> update.\<close>

record tally =
  totalScore :: rat
  harmonyDetails :: "string list"
  neutralCount :: nat
  avgSaturation :: rat

record details =
  details_harmonyDetails :: "string list"
  details_neutralCount :: nat
  details_avgSaturation :: int

text \<open>
  The result object. The early return for fewer than two items has no \<open>details\<close>
  property: \<open>details = None\<close>.
\<close>

record scoring =
  score :: rat
  explanation :: string
  details :: "details option"

text \<open>The body of the inner loop, for the pair \<open>items[i]\<close>, \<open>items[j]\<close>.\<close>

definition pair_body :: "bool \<Rightarrow> item \<Rightarrow> item \<Rightarrow> tally \<Rightarrow> tally" where
  "pair_body isFormal item1 item2 st =
     (let harmonyScore = calculateColorHarmony (hsl item1) (hsl item2) isFormal;
          st1 = st\<lparr>totalScore := totalScore st + of_int harmonyScore\<rparr>
      in if harmonyScore > 0 then
           (let hueDistance = hueDifference (fst (hsl item1)) (fst (hsl item2));
                st2 = (if hueDistance \<ge> 150 \<and> hueDistance \<le> 210 then
                         st1\<lparr>harmonyDetails := harmonyDetails st1 @
                           [category item1 @ '' + '' @ category item2 @ '': complementary colors'']\<rparr>
                       else if hueDistance \<le> 30 then
                         st1\<lparr>harmonyDetails := harmonyDetails st1 @
                           [category item1 @ '' + '' @ category item2 @ '': analogous harmony'']\<rparr>
                       else st1)
            in if isNeutralColor (hsl item1) \<or> isNeutralColor (hsl item2) then
                 st2\<lparr>harmonyDetails := harmonyDetails st2 @
                   [category item1 @ '' + '' @ category item2 @ '': neutral pairing'']\<rparr>
               else st2)
         else st1)"

text \<open>The inner loop: \<open>j\<close> runs over the items after \<open>items[i]\<close>.\<close>

fun inner_loop :: "bool \<Rightarrow> item \<Rightarrow> item list \<Rightarrow> tally \<Rightarrow> tally" where
  "inner_loop isFormal item1 [] st = st"
| "inner_loop isFormal item1 (item2 # rest) st =
     inner_loop isFormal item1 rest (pair_body isFormal item1 item2 st)"

text \<open>The two statements of the outer loop that follow the inner loop.\<close>

definition item_body :: "item \<Rightarrow> tally \<Rightarrow> tally" where
  "item_body x st =
     (let st1 = (if isNeutralColor (hsl x) then st\<lparr>neutralCount := neutralCount st + 1\<rparr> else st)
      in st1\<lparr>avgSaturation := avgSaturation st1 + of_int (fst (snd (hsl x)))\<rparr>)"

fun outer_loop :: "bool \<Rightarrow> item list \<Rightarrow> tally \<Rightarrow> tally" where
  "outer_loop isFormal [] st = st"
| "outer_loop isFormal (x # rest) st =
     outer_loop isFormal rest (item_body x (inner_loop isFormal x rest st))"

definition generateOutfitExplanation ::
  "item list \<Rightarrow> string list \<Rightarrow> bool \<Rightarrow> nat \<Rightarrow> rat \<Rightarrow> string" where
  "generateOutfitExplanation its hDetails isFormal nCount avgSat =
     (let itemNames = map (\<lambda>x. render (hex x) @ '' '' @ toLowerCase (category x)) its
      in if length hDetails = 0 \<and> nCount = 0 then
           join '' + '' itemNames @ '' '' @ emdash @ '' experimental color combination for '' @
             (if isFormal then ''formal'' else ''casual'') @ '' wear''
         else
           (let e1 = (if nCount > 0 then
                        (if nCount = length its then ''All neutral palette''
                         else number_string nCount @ '' neutral item'' @
                              (if nCount > 1 then ''s'' else []) @ '' provide balance'')
                      else []);
                e2 = (if length hDetails > 0 then
                        (let primaryHarmony = hDetails ! 0
                         in (if e1 \<noteq> [] then e1 @ ''; '' else e1) @
                            render (element1 (split_colon_space [] primaryHarmony)))
                      else e1);
                e3 = (if isFormal \<and> nCount > 0 then
                        e2 @ '' '' @ emdash @ '' professional and sophisticated''
                      else if \<not> isFormal \<and> avgSat > 50 then
                        e2 @ '' '' @ emdash @ '' vibrant and expressive''
                      else e2)
            in join '' + '' itemNames @ '' '' @ emdash @ '' '' @ e3))"

text \<open>
  \<open>scoreOutfitCombination\<close>. The saturations are integers and the only fractions are
  halves and one division by the number of items, so the running totals are kept as
  exact rationals. \<open>Math.round x\<close> is \<open>\<lfloor>x + 1/2\<rfloor>\<close>.
\<close>

definition scoreOutfitCombination :: "item list \<Rightarrow> bool \<Rightarrow> scoring" where
  "scoreOutfitCombination its isFormal =
     (if length its < 2 then
        \<lparr> score = 0, explanation = ''Not enough items for scoring'', details = None \<rparr>
      else
        (let st = outer_loop isFormal its
                    \<lparr> totalScore = 0, harmonyDetails = [], neutralCount = 0, avgSaturation = 0 \<rparr>;
             avgSat = avgSaturation st / of_nat (length its);
             total = (if isFormal then
                        (let t1 = totalScore st + of_nat (neutralCount st) * (1 / 2)
                         in if avgSat > 55 then t1 - 1 else t1)
                      else
                        (if avgSat > 40 then totalScore st + 1 / 2 else totalScore st))
         in \<lparr> score = total,
              explanation =
                generateOutfitExplanation its (harmonyDetails st) isFormal (neutralCount st) avgSat,
              details = Some \<lparr> details_harmonyDetails = harmonyDetails st,
                               details_neutralCount = neutralCount st,
                               details_avgSaturation = \<lfloor>avgSat + 1 / 2\<rfloor> \<rparr> \<rparr>))"

section \<open>Candidate generation (colorMatching.js)\<close>

text \<open>
  The grouped wardrobe. A bucket the object lacks takes the default \<open>[]\<close> of the
  destructuring pattern, so each bucket is a list, possibly empty.
\<close>

record wardrobe =
  tops :: "item list"
  bottoms :: "item list"
  footwear :: "item list"
  accessories :: "item list"

text \<open>
  The two sources the generator reads from outside: \<open>random_values e k\<close> is what the
  \<open>k\<close>-th call of \<open>Math.random()\<close> returns, \<open>now_values e k\<close> what the \<open>k\<close>-th call of
  \<open>Date.now()\<close> returns. \<open>Math.random()\<close> returns a number that is at least 0 and less
  than 1; \<open>unit_interval\<close> states that of a source.
\<close>

record env =
  random_values :: "nat \<Rightarrow> rat"
  now_values :: "nat \<Rightarrow> int"

definition unit_interval :: "env \<Rightarrow> bool" where
  "unit_interval e = (\<forall>k. 0 \<le> random_values e k \<and> random_values e k < 1)"

text \<open>
  An accepted suggestion: the scoring result extended by the generator's fields. The
  identifier is the text \<open>outfit-<Date.now()>-<base-36 digits of Math.random()>\<close>; the
  record keeps the two values it is rendered from.
\<close>

record suggestion = scoring +
  suggestion_id :: "int \<times> rat"
  items :: "item list"
  style :: string
  timestamp :: int

text \<open>
  The variables of the sampling loop, with the number of calls made so far to each of
  the two outside sources.
\<close>

record gen_state =
  suggestions :: "suggestion list"
  attempts :: nat
  random_calls :: nat
  now_calls :: nat

definition maxCandidates :: nat where
  "maxCandidates = 200"

text \<open>\<open>xs[Math.floor(r * xs.length)]\<close>; the index is in range when \<open>0 \<le> r < 1\<close>.\<close>

definition pick :: "item list \<Rightarrow> rat \<Rightarrow> item" where
  "pick xs r = xs ! nat \<lfloor>r * of_nat (length xs)\<rfloor>"

text \<open>
  The four conditional pushes that build \<open>combination\<close>, from the \<open>k0\<close>-th random call
  on; the result is the combination and the index of the next random call. The
  short-circuit \<open>&&\<close> calls \<open>Math.random()\<close> only for a non-empty bucket.
\<close>

definition draw_combination :: "env \<Rightarrow> wardrobe \<Rightarrow> nat \<Rightarrow> item list \<times> nat" where
  "draw_combination e w k0 =
     (let (c1, k1) = (if length (tops w) > 0
                      then ([pick (tops w) (random_values e k0)], k0 + 1)
                      else ([], k0));
          (c2, k2) = (if length (bottoms w) > 0
                      then (c1 @ [pick (bottoms w) (random_values e k1)], k1 + 1)
                      else (c1, k1));
          (c3, k3) = (if length (footwear w) > 0
                      then (if random_values e k2 > 3 / 10
                            then (c2 @ [pick (footwear w) (random_values e (k2 + 1))], k2 + 2)
                            else (c2, k2 + 1))
                      else (c2, k2));
          (c4, k4) = (if length (accessories w) > 0
                      then (if random_values e k3 > 1 / 2
                            then (c3 @ [pick (accessories w) (random_values e (k3 + 1))], k3 + 2)
                            else (c3, k3 + 1))
                      else (c3, k3))
      in (c4, k4))"

text \<open>
  \<open>combination.map(item => item.id).sort().join('-')\<close>. The default \<open>sort\<close> orders
  strings by their code units; on byte strings that is the lexicographic order of
  the bytes.
\<close>

definition combination_key :: "item list \<Rightarrow> string" where
  "combination_key combination = join ''-'' (sort (map item_id combination))"

text \<open>One pass through the body of the \<open>while\<close> loop.\<close>

definition attempt :: "env \<Rightarrow> wardrobe \<Rightarrow> bool \<Rightarrow> gen_state \<Rightarrow> gen_state" where
  "attempt e w isFormal st =
     (let st1 = st\<lparr>attempts := attempts st + 1\<rparr>;
          (combination, k) = draw_combination e w (random_calls st1);
          st2 = st1\<lparr>random_calls := k\<rparr>
      in if length combination < 2 then st2
         else
           (let scoring = scoreOutfitCombination combination isFormal;
                combinationIds = combination_key combination;
                exists = list_ex (\<lambda>s. combination_key (items s) = combinationIds)
                                 (suggestions st2)
            in if \<not> exists then
                 st2\<lparr>suggestions := suggestions st2 @
                        [\<lparr> score = score scoring,
                           explanation = explanation scoring,
                           details = details scoring,
                           suggestion_id = (now_values e (now_calls st2), random_values e k),
                           items = combination,
                           style = (if isFormal then ''formal'' else ''casual''),
                           timestamp = now_values e (now_calls st2 + 1) \<rparr>],
                      random_calls := k + 1,
                      now_calls := now_calls st2 + 2\<rparr>
               else st2))"

function generate_loop :: "env \<Rightarrow> wardrobe \<Rightarrow> bool \<Rightarrow> nat \<Rightarrow> gen_state \<Rightarrow> gen_state" where
  "generate_loop e w isFormal maxSuggestions st =
     (if length (suggestions st) < maxSuggestions \<and> attempts st < maxCandidates
      then generate_loop e w isFormal maxSuggestions (attempt e w isFormal st)
      else st)"
  by pat_completeness auto
termination
  by (relation "measure (\<lambda>(e, w, isFormal, maxSuggestions, st). maxCandidates - attempts st)")
     (auto simp: attempt_def Let_def split: prod.split)

declare generate_loop.simps [simp del]

text \<open>
  \<open>generateOutfitSuggestions\<close>. \<open>maxSuggestions\<close> is a count. \<open>Array.prototype.sort\<close>
  is stable, and so is \<open>sort_key\<close>; the comparator \<open>b.score - a.score\<close> orders by
  descending score. \<open>slice(0, n)\<close> keeps the first \<open>n\<close> elements.
\<close>

definition generateOutfitSuggestions ::
  "env \<Rightarrow> wardrobe \<Rightarrow> bool \<Rightarrow> nat \<Rightarrow> suggestion list" where
  "generateOutfitSuggestions e w isFormal maxSuggestions =
     (if length (tops w) = 0 \<and> length (bottoms w) = 0 then []
      else
        (let st = generate_loop e w isFormal maxSuggestions
                    \<lparr> suggestions = [], attempts = 0, random_calls = 0, now_calls = 0 \<rparr>
         in take maxSuggestions (sort_key (\<lambda>s. - score s) (suggestions st))))"

text \<open>The state of the sampling loop after \<open>n\<close> passes through its body.\<close>

primrec pass_state :: "env \<Rightarrow> wardrobe \<Rightarrow> bool \<Rightarrow> nat \<Rightarrow> gen_state" where
  "pass_state e w isFormal 0 =
     \<lparr> suggestions = [], attempts = 0, random_calls = 0, now_calls = 0 \<rparr>"
| "pass_state e w isFormal (Suc n) = attempt e w isFormal (pass_state e w isFormal n)"

section \<open>Item identifiers\<close>

text \<open>
  Every identifier the repository creates (\<open>newItem\<close> in UploadWardrobe.jsx and
  \<open>addWardrobeItem\<close> in the storage utilities) is the text
  \<open>item-<Date.now()>-<Math.random().toString(36).substr(2, 9)>\<close>: the prefix, the
  decimal digits of the clock, a hyphen and at most nine base-36 digits.
\<close>

definition is_digit :: "char \<Rightarrow> bool" where
  "is_digit c = (CHR ''0'' \<le> c \<and> c \<le> CHR ''9'')"

definition is_base36 :: "char \<Rightarrow> bool" where
  "is_base36 c = (is_digit c \<or> (CHR ''a'' \<le> c \<and> c \<le> CHR ''z''))"

definition upload_id :: "string \<Rightarrow> bool" where
  "upload_id s =
     (take 5 s = ''item-'' \<and>
      (let rest = drop 5 s;
           stamp = takeWhile is_digit rest;
           tail = dropWhile is_digit rest
       in stamp \<noteq> [] \<and>
          (case tail of
             [] \<Rightarrow> False
           | c # suffix \<Rightarrow> c = CHR ''-'' \<and> list_all is_base36 suffix \<and> length suffix \<le> 9)))"

text \<open>The number of hyphens in a string.\<close>

definition hyphens :: "string \<Rightarrow> nat" where
  "hyphens s = length (filter (\<lambda>c. c = CHR ''-'') s)"

section \<open>Sample inputs\<close>

text \<open>
  Four items as the upload path builds them, a wardrobe holding one of them in each
  bucket, a wardrobe with footwear only, and an outside world whose random numbers are
  0 except at the calls 7, 14, 19 and 21, where they are 0.9.
\<close>

definition sample_top :: item where
  "sample_top = newItem ''item-1700000000001-k3j9x2m1q'' ''tops'' ''#d9d9d9'' (0, 0, 85)"

definition sample_bottom :: item where
  "sample_bottom = newItem ''item-1700000000002-p8w4z7c5v'' ''bottoms'' ''#ff0000'' (0, 100, 50)"

definition sample_shoes :: item where
  "sample_shoes = newItem ''item-1700000000003-a1b2c3d4e'' ''footwear'' ''#00ffff'' (180, 100, 50)"

definition sample_scarf :: item where
  "sample_scarf = newItem ''item-1700000000004-f5g6h7i8j'' ''accessories'' ''#4d1a1a'' (0, 50, 20)"

definition sample_wardrobe :: wardrobe where
  "sample_wardrobe = \<lparr> tops = [sample_top], bottoms = [sample_bottom],
                        footwear = [sample_shoes], accessories = [sample_scarf] \<rparr>"

definition footwear_only :: wardrobe where
  "footwear_only = \<lparr> tops = [], bottoms = [], footwear = [sample_shoes], accessories = [] \<rparr>"

definition sample_env :: env where
  "sample_env = \<lparr> random_values = (\<lambda>k. if k = 7 \<or> k = 14 \<or> k = 19 \<or> k = 21 then 9 / 10 else 0),
                   now_values = (\<lambda>k. 1700000000100 + int k) \<rparr>"

section \<open>Colour model: properties\<close>

text \<open>
  C9. \<open>isNeutralColor\<close> holds exactly when the saturation is below 12, or the lightness
  is above 85 or below 15, or the hue lies in [30,60] with saturation below 40. It holds
  for saturation 5 whatever the hue and lightness, for lightness 90 whatever the
  saturation, for hue 45 with saturation 20, and fails for hue 0, saturation 80,
  lightness 50.
\<close>

theorem isNeutralColor_iff:
  "(isNeutralColor (h, s, l) = (s < 12 \<or> l > 85 \<or> l < 15 \<or> (30 \<le> h \<and> h \<le> 60 \<and> s < 40)))
   \<and> isNeutralColor (h, 5, l)
   \<and> isNeutralColor (h, s, 90)
   \<and> isNeutralColor (45, 20, l)
   \<and> \<not> isNeutralColor (0, 80, 50)"
  by auto

theorem isNeutralColor_iff_witness:
  "isNeutralColor (45, 20, 50) \<and> \<not> isNeutralColor (0, 80, 50) \<and> isNeutralColor (200, 5, 50)"
  using isNeutralColor_iff [of 45 20 50] isNeutralColor_iff [of 200 5 50] by simp

section \<open>Pairwise harmony: properties\<close>

text \<open>
  C1. For all colours and both style contexts the pairwise harmony score is the sum of
  a hue term (2 when the hue distance is in [150,210], else 1 when it is at most 30,
  else 0), a contrast term (1 when one lightness is below 30 and the other above 70)
  and a neutral term (1 when either colour is neutral and the context is formal). The
  score therefore lies in [0,4]. Hues 0 and 180 with lightnesses 20 and 80 score 3 in
  casual context; equal hues with both lightnesses 50 score 1 in casual context.
\<close>

theorem calculateColorHarmony_sum:
  "calculateColorHarmony (h1, s1, l1) (h2, s2, l2) isFormal =
     (if 150 \<le> hueDifference h1 h2 \<and> hueDifference h1 h2 \<le> 210 then 2
      else if hueDifference h1 h2 \<le> 30 then 1 else 0)
     + (if (l1 < 30 \<and> l2 > 70) \<or> (l2 < 30 \<and> l1 > 70) then 1 else 0)
     + (if (isNeutralColor (h1, s1, l1) \<or> isNeutralColor (h2, s2, l2)) \<and> isFormal then 1 else 0)
   \<and> 0 \<le> calculateColorHarmony (h1, s1, l1) (h2, s2, l2) isFormal
   \<and> calculateColorHarmony (h1, s1, l1) (h2, s2, l2) isFormal \<le> 4
   \<and> calculateColorHarmony (0, s1, 20) (180, s2, 80) False = 3
   \<and> calculateColorHarmony (h1, s1, 50) (h1, s2, 50) False = 1"
proof -
  let ?c = "calculateColorHarmony (h1, s1, l1) (h2, s2, l2) isFormal"
  let ?hue = "(if 150 \<le> hueDifference h1 h2 \<and> hueDifference h1 h2 \<le> 210 then 2
      else if hueDifference h1 h2 \<le> 30 then 1 else (0::int))"
  let ?con = "(if (l1 < 30 \<and> l2 > 70) \<or> (l2 < 30 \<and> l1 > 70) then 1 else (0::int))"
  let ?neu = "(if (isNeutralColor (h1, s1, l1) \<or> isNeutralColor (h2, s2, l2)) \<and> isFormal then 1 else (0::int))"
  have eq: "?c = ?hue + ?con + ?neu"
    by (simp add: Let_def del: isNeutralColor.simps)
  have "0 \<le> ?hue" "?hue \<le> 2" "0 \<le> ?con" "?con \<le> 1" "0 \<le> ?neu" "?neu \<le> 1"
    by simp_all
  with eq have bounds: "0 \<le> ?c" "?c \<le> 4"
    by linarith+
  have ex1: "calculateColorHarmony (0, s1, 20) (180, s2, 80) False = 3"
    by (simp add: hueDifference_def Let_def del: isNeutralColor.simps)
  have ex2: "calculateColorHarmony (h1, s1, 50) (h1, s2, 50) False = 1"
    by (simp add: hueDifference_def Let_def del: isNeutralColor.simps)
  from eq bounds ex1 ex2 show ?thesis
    by blast
qed

theorem calculateColorHarmony_sum_witness:
  "calculateColorHarmony (10, 5, 20) (190, 60, 80) True = 4
   \<and> calculateColorHarmony (100, 50, 50) (200, 50, 50) True = 0"
  using calculateColorHarmony_sum [of 10 5 20 190 60 80 True]
        calculateColorHarmony_sum [of 100 50 50 200 50 50 True]
  by (simp add: hueDifference_def)

section \<open>Outfit scoring: properties\<close>

text \<open>
  C8. Called with fewer than two items, \<open>scoreOutfitCombination\<close> returns the record
  with score 0, the explanation "Not enough items for scoring" and no \<open>details\<close>
  property; it reads nothing but the length of the list.
\<close>

theorem scoreOutfitCombination_too_few:
  "length its < 2 \<Longrightarrow>
   scoreOutfitCombination its isFormal =
     \<lparr> score = 0, explanation = ''Not enough items for scoring'', details = None \<rparr>"
  by (simp add: scoreOutfitCombination_def)

theorem scoreOutfitCombination_too_few_witness:
  "scoreOutfitCombination [newItem ''item-1-a'' ''tops'' ''#ff0000'' (0, 100, 50)] True =
     \<lparr> score = 0, explanation = ''Not enough items for scoring'', details = None \<rparr>
   \<and> scoreOutfitCombination [] False =
     \<lparr> score = 0, explanation = ''Not enough items for scoring'', details = None \<rparr>"
  using scoreOutfitCombination_too_few [of "[newItem ''item-1-a'' ''tops'' ''#ff0000'' (0, 100, 50)]" True]
        scoreOutfitCombination_too_few [of "[]" False]
  by simp

subsection \<open>What the two loops accumulate\<close>

lemma pair_body_totalScore:
  "totalScore (pair_body f x y st) = totalScore st + of_int (calculateColorHarmony (hsl x) (hsl y) f)"
  by (simp add: pair_body_def Let_def)

lemma pair_body_neutralCount: "neutralCount (pair_body f x y st) = neutralCount st"
  by (simp add: pair_body_def Let_def)

lemma pair_body_avgSaturation: "avgSaturation (pair_body f x y st) = avgSaturation st"
  by (simp add: pair_body_def Let_def)

lemma inner_loop_totalScore:
  "totalScore (inner_loop f x ys st) =
     totalScore st + (\<Sum>y\<leftarrow>ys. of_int (calculateColorHarmony (hsl x) (hsl y) f))"
  by (induction ys arbitrary: st) (simp_all add: pair_body_totalScore)

lemma inner_loop_neutralCount: "neutralCount (inner_loop f x ys st) = neutralCount st"
  by (induction ys arbitrary: st) (simp_all add: pair_body_neutralCount)

lemma inner_loop_avgSaturation: "avgSaturation (inner_loop f x ys st) = avgSaturation st"
  by (induction ys arbitrary: st) (simp_all add: pair_body_avgSaturation)

lemma item_body_totalScore: "totalScore (item_body x st) = totalScore st"
  by (simp add: item_body_def Let_def)

lemma item_body_neutralCount:
  "neutralCount (item_body x st) = neutralCount st + (if isNeutralColor (hsl x) then 1 else 0)"
  by (simp add: item_body_def Let_def)

lemma item_body_avgSaturation:
  "avgSaturation (item_body x st) = avgSaturation st + of_int (fst (snd (hsl x)))"
  by (simp add: item_body_def Let_def)

lemma pair_sum_Cons:
  fixes g :: "'a \<Rightarrow> 'a \<Rightarrow> rat"
  shows "(\<Sum>i<length (x # xs). \<Sum>j = Suc i..<length (x # xs). g ((x # xs) ! i) ((x # xs) ! j)) =
         (\<Sum>y\<leftarrow>xs. g x y) + (\<Sum>i<length xs. \<Sum>j = Suc i..<length xs. g (xs ! i) (xs ! j))"
proof -
  have "(\<Sum>j = Suc 0..<Suc (length xs). g x ((x # xs) ! j)) =
        (\<Sum>j = 0..<length xs. g x ((x # xs) ! Suc j))"
    by (rule sum.shift_bounds_Suc_ivl)
  also have "\<dots> = (\<Sum>y\<leftarrow>xs. g x y)"
    by (simp add: sum_list_sum_nth)
  finally have first: "(\<Sum>j = Suc 0..<Suc (length xs). g x ((x # xs) ! j)) = (\<Sum>y\<leftarrow>xs. g x y)" .
  have rest: "(\<Sum>j = Suc (Suc i)..<Suc (length xs). g (xs ! i) ((x # xs) ! j)) =
              (\<Sum>j = Suc i..<length xs. g (xs ! i) (xs ! j))" for i
  proof -
    have "(\<Sum>j = Suc (Suc i)..<Suc (length xs). g (xs ! i) ((x # xs) ! j)) =
          (\<Sum>j = Suc i..<length xs. g (xs ! i) ((x # xs) ! Suc j))"
      by (rule sum.shift_bounds_Suc_ivl)
    then show ?thesis
      by simp
  qed
  have "(\<Sum>i<Suc (length xs). \<Sum>j = Suc i..<Suc (length xs). g ((x # xs) ! i) ((x # xs) ! j)) =
        (\<Sum>j = Suc 0..<Suc (length xs). g ((x # xs) ! 0) ((x # xs) ! j)) +
        (\<Sum>i<length xs. \<Sum>j = Suc (Suc i)..<Suc (length xs). g ((x # xs) ! Suc i) ((x # xs) ! j))"
    by (rule sum.lessThan_Suc_shift)
  also have "\<dots> = (\<Sum>y\<leftarrow>xs. g x y) +
        (\<Sum>i<length xs. \<Sum>j = Suc i..<length xs. g (xs ! i) (xs ! j))"
    by (simp only: nth_Cons_0 nth_Cons_Suc first rest)
  finally show ?thesis
    by (simp only: length_Cons)
qed

lemma outer_loop_totalScore:
  "totalScore (outer_loop f xs st) =
     totalScore st +
     (\<Sum>i<length xs. \<Sum>j = Suc i..<length xs.
        of_int (calculateColorHarmony (hsl (xs ! i)) (hsl (xs ! j)) f))"
proof (induction xs arbitrary: st)
  case Nil
  show ?case by simp
next
  case (Cons x xs)
  have "totalScore (outer_loop f (x # xs) st) =
          totalScore st + (\<Sum>y\<leftarrow>xs. of_int (calculateColorHarmony (hsl x) (hsl y) f)) +
          (\<Sum>i<length xs. \<Sum>j = Suc i..<length xs.
             of_int (calculateColorHarmony (hsl (xs ! i)) (hsl (xs ! j)) f))"
    by (simp add: Cons.IH item_body_totalScore inner_loop_totalScore)
  also have "\<dots> = totalScore st +
          (\<Sum>i<length (x # xs). \<Sum>j = Suc i..<length (x # xs).
             of_int (calculateColorHarmony (hsl ((x # xs) ! i)) (hsl ((x # xs) ! j)) f))"
    using pair_sum_Cons [of "\<lambda>a b. of_int (calculateColorHarmony (hsl a) (hsl b) f)" x xs]
    by (simp only: add.assoc)
  finally show ?case .
qed

lemma outer_loop_neutralCount:
  "neutralCount (outer_loop f xs st) =
     neutralCount st + length (filter (\<lambda>x. isNeutralColor (hsl x)) xs)"
  by (induction xs arbitrary: st)
     (simp_all add: item_body_neutralCount inner_loop_neutralCount)

lemma outer_loop_avgSaturation:
  "avgSaturation (outer_loop f xs st) =
     avgSaturation st + of_int (\<Sum>x\<leftarrow>xs. fst (snd (hsl x)))"
  by (induction xs arbitrary: st)
     (simp_all add: item_body_avgSaturation inner_loop_avgSaturation)

text \<open>
  C5. For two or more items the returned score is the sum of the pairwise harmony
  scores over all pairs \<open>i < j\<close> plus one style adjustment: in formal context half the
  number of neutral items, less 1 when the mean saturation exceeds 55; in casual
  context one half when the mean saturation exceeds 40; nothing else. (The saturations
  are integers, so comparing the quotient with 55 or 40 is exact.)
\<close>

theorem scoreOutfitCombination_style_adjustment:
  assumes "2 \<le> length its"
  shows "score (scoreOutfitCombination its isFormal) =
    (let pairwise = ((\<Sum>i<length its. \<Sum>j = Suc i..<length its.
                       of_int (calculateColorHarmony (hsl (its ! i)) (hsl (its ! j)) isFormal)) :: rat);
         neutrals = length (filter (\<lambda>x. isNeutralColor (hsl x)) its);
         meanSaturation = (of_int (\<Sum>x\<leftarrow>its. fst (snd (hsl x))) / of_nat (length its) :: rat)
     in if isFormal
        then pairwise + of_nat neutrals * (1 / 2) - (if meanSaturation > 55 then 1 else 0)
        else pairwise + (if meanSaturation > 40 then 1 / 2 else 0))"
  using assms
  by (simp add: scoreOutfitCombination_def Let_def outer_loop_totalScore
        outer_loop_neutralCount outer_loop_avgSaturation)

theorem scoreOutfitCombination_style_adjustment_witness:
  "score (scoreOutfitCombination
      [newItem ''item-1-a'' ''tops'' ''#d9d9d9'' (0, 0, 85),
       newItem ''item-2-b'' ''bottoms'' ''#ff0000'' (0, 100, 50),
       newItem ''item-3-c'' ''footwear'' ''#00ffff'' (180, 100, 50)] True) = 13 / 2
   \<and> score (scoreOutfitCombination
      [newItem ''item-1-a'' ''tops'' ''#d9d9d9'' (0, 0, 85),
       newItem ''item-2-b'' ''bottoms'' ''#ff0000'' (0, 100, 50),
       newItem ''item-3-c'' ''footwear'' ''#00ffff'' (180, 100, 50)] False) = 11 / 2"
  using scoreOutfitCombination_style_adjustment
          [of "[newItem ''item-1-a'' ''tops'' ''#d9d9d9'' (0, 0, 85),
                newItem ''item-2-b'' ''bottoms'' ''#ff0000'' (0, 100, 50),
                newItem ''item-3-c'' ''footwear'' ''#00ffff'' (180, 100, 50)]" True]
        scoreOutfitCombination_style_adjustment
          [of "[newItem ''item-1-a'' ''tops'' ''#d9d9d9'' (0, 0, 85),
                newItem ''item-2-b'' ''bottoms'' ''#ff0000'' (0, 100, 50),
                newItem ''item-3-c'' ''footwear'' ''#00ffff'' (180, 100, 50)]" False]
  by (simp add: newItem_def hueDifference_def Let_def lessThan_Suc numeral_3_eq_3)

subsection \<open>Which details the loops record\<close>

lemma pair_body_harmonyDetails_mono:
  "set (harmonyDetails st) \<subseteq> set (harmonyDetails (pair_body f x y st))"
  by (auto simp: pair_body_def Let_def)

lemma inner_loop_harmonyDetails_mono:
  "set (harmonyDetails st) \<subseteq> set (harmonyDetails (inner_loop f x ys st))"
proof (induction ys arbitrary: st)
  case Nil
  show ?case by simp
next
  case (Cons y ys)
  from pair_body_harmonyDetails_mono [of st f x y] Cons.IH [of "pair_body f x y st"]
  show ?case by auto
qed

lemma item_body_harmonyDetails: "harmonyDetails (item_body x st) = harmonyDetails st"
  by (simp add: item_body_def Let_def)

lemma outer_loop_harmonyDetails_mono:
  "set (harmonyDetails st) \<subseteq> set (harmonyDetails (outer_loop f xs st))"
proof (induction xs arbitrary: st)
  case Nil
  show ?case by simp
next
  case (Cons x xs)
  from inner_loop_harmonyDetails_mono [of st f x xs]
       Cons.IH [of "item_body x (inner_loop f x xs st)"]
  show ?case by (auto simp: item_body_harmonyDetails)
qed

lemma inner_loop_member:
  assumes "j < length ys"
    and "\<And>st. s \<in> set (harmonyDetails (pair_body f x (ys ! j) st))"
  shows "s \<in> set (harmonyDetails (inner_loop f x ys st))"
  using assms
proof (induction ys arbitrary: j st)
  case Nil
  then show ?case by simp
next
  case (Cons y ys)
  show ?case
  proof (cases j)
    case 0
    with Cons.prems(2) [of st] have "s \<in> set (harmonyDetails (pair_body f x y st))"
      by simp
    with inner_loop_harmonyDetails_mono [of "pair_body f x y st" f x ys]
    show ?thesis by auto
  next
    case (Suc k)
    with Cons.prems have "k < length ys"
      and "\<And>st. s \<in> set (harmonyDetails (pair_body f x (ys ! k) st))"
      by simp_all
    then have "s \<in> set (harmonyDetails (inner_loop f x ys (pair_body f x y st)))"
      by (rule Cons.IH)
    then show ?thesis by simp
  qed
qed

lemma outer_loop_member:
  assumes "i < j" and "j < length xs"
    and "\<And>st. s \<in> set (harmonyDetails (pair_body f (xs ! i) (xs ! j) st))"
  shows "s \<in> set (harmonyDetails (outer_loop f xs st))"
  using assms
proof (induction xs arbitrary: i j st)
  case Nil
  then show ?case by simp
next
  case (Cons x xs)
  from Cons.prems(1) obtain k where j: "j = Suc k"
    by (cases j) simp_all
  show ?case
  proof (cases i)
    case 0
    from 0 j Cons.prems have "k < length xs"
      and "\<And>st. s \<in> set (harmonyDetails (pair_body f x (xs ! k) st))"
      by simp_all
    then have "s \<in> set (harmonyDetails (inner_loop f x xs st))"
      by (rule inner_loop_member)
    then have "s \<in> set (harmonyDetails (item_body x (inner_loop f x xs st)))"
      by (simp add: item_body_harmonyDetails)
    with outer_loop_harmonyDetails_mono [of "item_body x (inner_loop f x xs st)" f xs]
    show ?thesis by auto
  next
    case (Suc m)
    with j Cons.prems have "m < k" and "k < length xs"
      and "\<And>st. s \<in> set (harmonyDetails (pair_body f (xs ! m) (xs ! k) st))"
      by simp_all
    then have "s \<in> set (harmonyDetails (outer_loop f xs (item_body x (inner_loop f x xs st))))"
      by (rule Cons.IH)
    then show ?thesis by simp
  qed
qed

lemma pair_body_complementary:
  assumes "calculateColorHarmony (hsl x) (hsl y) f > 0"
    and "150 \<le> hueDifference (fst (hsl x)) (fst (hsl y))"
    and "hueDifference (fst (hsl x)) (fst (hsl y)) \<le> 210"
  shows "category x @ '' + '' @ category y @ '': complementary colors''
           \<in> set (harmonyDetails (pair_body f x y st))"
  using assms by (simp add: pair_body_def Let_def)

lemma pair_body_analogous:
  assumes "calculateColorHarmony (hsl x) (hsl y) f > 0"
    and "\<not> (150 \<le> hueDifference (fst (hsl x)) (fst (hsl y))
            \<and> hueDifference (fst (hsl x)) (fst (hsl y)) \<le> 210)"
    and "hueDifference (fst (hsl x)) (fst (hsl y)) \<le> 30"
  shows "category x @ '' + '' @ category y @ '': analogous harmony''
           \<in> set (harmonyDetails (pair_body f x y st))"
  using assms by (simp add: pair_body_def Let_def)

lemma pair_body_neutral:
  assumes "calculateColorHarmony (hsl x) (hsl y) f > 0"
    and "isNeutralColor (hsl x) \<or> isNeutralColor (hsl y)"
  shows "category x @ '' + '' @ category y @ '': neutral pairing''
           \<in> set (harmonyDetails (pair_body f x y st))"
  using assms by (simp add: pair_body_def Let_def)

text \<open>
  C3. For every pair \<open>i < j\<close> of the list whose pairwise harmony score is positive, the
  recorded details contain "\<open>category i\<close> + \<open>category j\<close>: complementary colors" when the
  hue distance of the pair is in [150,210], otherwise "\<dots>: analogous harmony" when it
  is at most 30, and "\<dots>: neutral pairing" whenever either colour is neutral, in
  both style contexts.
\<close>

theorem scoreOutfitCombination_pair_details:
  assumes "i < j" and "j < length its"
    and "calculateColorHarmony (hsl (its ! i)) (hsl (its ! j)) isFormal > 0"
  shows "\<exists>d. details (scoreOutfitCombination its isFormal) = Some d \<and>
    (let hueDistance = hueDifference (fst (hsl (its ! i))) (fst (hsl (its ! j)));
         pair = category (its ! i) @ '' + '' @ category (its ! j)
     in (150 \<le> hueDistance \<and> hueDistance \<le> 210 \<longrightarrow>
           pair @ '': complementary colors'' \<in> set (details_harmonyDetails d))
      \<and> (\<not> (150 \<le> hueDistance \<and> hueDistance \<le> 210) \<and> hueDistance \<le> 30 \<longrightarrow>
           pair @ '': analogous harmony'' \<in> set (details_harmonyDetails d))
      \<and> (isNeutralColor (hsl (its ! i)) \<or> isNeutralColor (hsl (its ! j)) \<longrightarrow>
           pair @ '': neutral pairing'' \<in> set (details_harmonyDetails d)))"
proof -
  let ?st0 = "\<lparr> totalScore = 0, harmonyDetails = [], neutralCount = 0, avgSaturation = 0 \<rparr>"
  let ?ds = "harmonyDetails (outer_loop isFormal its ?st0)"
  let ?x = "its ! i" and ?y = "its ! j"
  let ?hd = "hueDifference (fst (hsl ?x)) (fst (hsl ?y))"
  from assms(1,2) have len: "\<not> length its < 2"
    by simp
  have d: "details (scoreOutfitCombination its isFormal) =
      Some \<lparr> details_harmonyDetails = ?ds,
             details_neutralCount = neutralCount (outer_loop isFormal its ?st0),
             details_avgSaturation =
               \<lfloor>avgSaturation (outer_loop isFormal its ?st0) / of_nat (length its) + 1 / 2\<rfloor> \<rparr>"
    using len by (simp add: scoreOutfitCombination_def Let_def)
  have c: "category ?x @ '' + '' @ category ?y @ '': complementary colors'' \<in> set ?ds"
    if "150 \<le> ?hd" "?hd \<le> 210"
    by (rule outer_loop_member [OF assms(1,2)]) (rule pair_body_complementary [OF assms(3) that])
  have a: "category ?x @ '' + '' @ category ?y @ '': analogous harmony'' \<in> set ?ds"
    if "\<not> (150 \<le> ?hd \<and> ?hd \<le> 210)" "?hd \<le> 30"
    by (rule outer_loop_member [OF assms(1,2)]) (rule pair_body_analogous [OF assms(3) that])
  have n: "category ?x @ '' + '' @ category ?y @ '': neutral pairing'' \<in> set ?ds"
    if "isNeutralColor (hsl ?x) \<or> isNeutralColor (hsl ?y)"
    by (rule outer_loop_member [OF assms(1,2)]) (rule pair_body_neutral [OF assms(3) that])
  from d c a n show ?thesis
    by (simp add: Let_def)
qed

theorem scoreOutfitCombination_pair_details_witness:
  "\<exists>d. details (scoreOutfitCombination
      [\<lparr> item_id = ''item-1-a'', category = ''Tops'', dominantColorHex = Some ''#d9d9d9'',
          hex = None, hsl = (0, 0, 85) \<rparr>,
       \<lparr> item_id = ''item-2-b'', category = ''Bottoms'', dominantColorHex = Some ''#ff0000'',
          hex = None, hsl = (0, 100, 50) \<rparr>,
       \<lparr> item_id = ''item-3-c'', category = ''Footwear'', dominantColorHex = Some ''#00ffff'',
          hex = None, hsl = (180, 100, 50) \<rparr>] False) = Some d
     \<and> ''Tops + Footwear: complementary colors'' \<in> set (details_harmonyDetails d)
     \<and> ''Tops + Footwear: neutral pairing'' \<in> set (details_harmonyDetails d)"
  using scoreOutfitCombination_pair_details
          [of 0 2 "[\<lparr> item_id = ''item-1-a'', category = ''Tops'',
                       dominantColorHex = Some ''#d9d9d9'', hex = None, hsl = (0, 0, 85) \<rparr>,
                    \<lparr> item_id = ''item-2-b'', category = ''Bottoms'',
                       dominantColorHex = Some ''#ff0000'', hex = None, hsl = (0, 100, 50) \<rparr>,
                    \<lparr> item_id = ''item-3-c'', category = ''Footwear'',
                       dominantColorHex = Some ''#00ffff'', hex = None, hsl = (180, 100, 50) \<rparr>]"
              False]
  by (simp add: hueDifference_def Let_def)

text \<open>
  A pair can score without any of these: hues 0 and 90 with lightnesses 20 and 80 and
  saturation 50 earn the contrast point only, neither colour is neutral, and the detail
  list stays empty.
\<close>

theorem contrast_only_pair_records_no_detail:
  "calculateColorHarmony (0, 50, 20) (90, 50, 80) False = 1
   \<and> details (scoreOutfitCombination
        [\<lparr> item_id = ''item-1-a'', category = ''Tops'', dominantColorHex = Some ''#4d1a1a'',
            hex = None, hsl = (0, 50, 20) \<rparr>,
         \<lparr> item_id = ''item-2-b'', category = ''Bottoms'', dominantColorHex = Some ''#cce6b3'',
            hex = None, hsl = (90, 50, 80) \<rparr>] False) =
     Some \<lparr> details_harmonyDetails = [], details_neutralCount = 0, details_avgSaturation = 50 \<rparr>"
  by (simp add: scoreOutfitCombination_def pair_body_def item_body_def
        hueDifference_def Let_def floor_eq_iff)

subsection \<open>The item list of the explanation\<close>

lemma explanation_item_list:
  assumes "2 \<le> length its"
  shows "\<exists>rest. explanation (scoreOutfitCombination its isFormal) =
           join '' + '' (map (\<lambda>x. render (hex x) @ '' '' @ toLowerCase (category x)) its)
           @ '' '' @ emdash @ rest"
  using assms
  by (simp add: scoreOutfitCombination_def generateOutfitExplanation_def Let_def)

text \<open>
  C10. The explanation renders each item as \<open>item.hex\<close>, a space and the lowercased
  category. An item built by the upload path keeps its colour under \<open>dominantColorHex\<close>
  and has no \<open>hex\<close> property, so for two such items the explanation begins with
  "undefined tops + undefined bottoms" and not with their hex colours.
\<close>

theorem explanation_renders_undefined:
  "hex sample_top = None \<and> dominantColorHex sample_top = Some ''#d9d9d9''
   \<and> hex sample_bottom = None \<and> dominantColorHex sample_bottom = Some ''#ff0000''
   \<and> explanation (scoreOutfitCombination [sample_top, sample_bottom] False) =
       ''undefined tops + undefined bottoms '' @ emdash @
       '' 1 neutral item provide balance; analogous harmony''
   \<and> take 30 (explanation (scoreOutfitCombination [sample_top, sample_bottom] False))
       \<noteq> ''#d9d9d9 tops + #ff0000 bottoms''"
  by code_simp

theorem explanation_renders_undefined_witness:
  "take 9 (explanation (scoreOutfitCombination [sample_top, sample_bottom] False)) = ''undefined''"
  using arg_cong [OF explanation_renders_undefined [THEN conjunct2, THEN conjunct2,
                     THEN conjunct2, THEN conjunct2, THEN conjunct1], of "take 9"]
  by simp

section \<open>Candidate generation: properties\<close>

subsection \<open>One pass of the sampling loop\<close>

lemma pick_in_set:
  assumes "0 \<le> r" and "r < 1" and "xs \<noteq> []"
  shows "pick xs r \<in> set xs"
proof -
  from assms have "r * of_nat (length xs) < of_nat (length xs)"
    by simp
  then have "\<lfloor>r * of_nat (length xs)\<rfloor> < int (length xs)"
    by (simp add: floor_less_iff)
  moreover from assms have "0 \<le> \<lfloor>r * of_nat (length xs)\<rfloor>"
    by simp
  ultimately have "nat \<lfloor>r * of_nat (length xs)\<rfloor> < length xs"
    by linarith
  then show ?thesis
    by (simp add: pick_def)
qed

lemma pick_unit_interval:
  assumes "unit_interval e" and "xs \<noteq> []"
  shows "pick xs (random_values e k) \<in> set xs"
  using assms by (simp add: unit_interval_def pick_in_set)

lemma draw_combination_shape:
  assumes "unit_interval e"
  shows "\<exists>ts bs fs acs. fst (draw_combination e w k) = ts @ bs @ fs @ acs
           \<and> length ts \<le> 1 \<and> set ts \<subseteq> set (tops w)
           \<and> length bs \<le> 1 \<and> set bs \<subseteq> set (bottoms w)
           \<and> length fs \<le> 1 \<and> set fs \<subseteq> set (footwear w)
           \<and> length acs \<le> 1 \<and> set acs \<subseteq> set (accessories w)"
proof -
  let ?ts = "if length (tops w) > 0 then [pick (tops w) (random_values e k)] else []"
  let ?k1 = "if length (tops w) > 0 then k + 1 else k"
  let ?bs = "if length (bottoms w) > 0 then [pick (bottoms w) (random_values e ?k1)] else []"
  let ?k2 = "if length (bottoms w) > 0 then ?k1 + 1 else ?k1"
  let ?fs = "if length (footwear w) > 0 \<and> random_values e ?k2 > 3 / 10
             then [pick (footwear w) (random_values e (?k2 + 1))] else []"
  let ?k3 = "if length (footwear w) > 0
             then (if random_values e ?k2 > 3 / 10 then ?k2 + 2 else ?k2 + 1) else ?k2"
  let ?acs = "if length (accessories w) > 0 \<and> random_values e ?k3 > 1 / 2
              then [pick (accessories w) (random_values e (?k3 + 1))] else []"
  have "fst (draw_combination e w k) = ?ts @ ?bs @ ?fs @ ?acs"
    by (simp add: draw_combination_def Let_def)
  moreover have "length ?ts \<le> 1 \<and> set ?ts \<subseteq> set (tops w)"
    using assms by (simp add: pick_unit_interval)
  moreover have "length ?bs \<le> 1 \<and> set ?bs \<subseteq> set (bottoms w)"
    using assms by (simp add: pick_unit_interval)
  moreover have "length ?fs \<le> 1 \<and> set ?fs \<subseteq> set (footwear w)"
    using assms by (simp add: pick_unit_interval)
  moreover have "length ?acs \<le> 1 \<and> set ?acs \<subseteq> set (accessories w)"
    using assms by (simp add: pick_unit_interval)
  ultimately show ?thesis
    by blast
qed

lemma attempt_suggestions:
  "suggestions (attempt e w f st) = suggestions st \<or>
   (\<exists>s. suggestions (attempt e w f st) = suggestions st @ [s]
        \<and> items s = fst (draw_combination e w (random_calls st))
        \<and> 2 \<le> length (items s)
        \<and> style s = (if f then ''formal'' else ''casual'')
        \<and> score s = score (scoreOutfitCombination (items s) f)
        \<and> \<not> list_ex (\<lambda>s'. combination_key (items s') = combination_key (items s))
                      (suggestions st))"
  by (auto simp: attempt_def Let_def split: prod.split)

lemma generate_loop_invariant:
  assumes "I st" and "\<And>st'. I st' \<Longrightarrow> I (attempt e w f st')"
  shows "I (generate_loop e w f m st)"
  using assms
proof (induction e w f m st rule: generate_loop.induct)
  case (1 e w f m st)
  show ?case
  proof (cases "length (suggestions st) < m \<and> attempts st < maxCandidates")
    case True
    have "I (generate_loop e w f m (attempt e w f st))"
      using True "1.prems" by (intro "1.IH") auto
    with True show ?thesis
      by (simp add: generate_loop.simps [of e w f m st])
  next
    case False
    then have "generate_loop e w f m st = st"
      by (subst generate_loop.simps) auto
    with "1.prems"(1) show ?thesis
      by simp
  qed
qed


lemma set_generateOutfitSuggestions:
  "set (generateOutfitSuggestions e w f m) \<subseteq>
   set (suggestions (generate_loop e w f m
          \<lparr> suggestions = [], attempts = 0, random_calls = 0, now_calls = 0 \<rparr>))"
proof -
  have "set (take m (sort_key g xs)) \<subseteq> set xs" for g :: "suggestion \<Rightarrow> rat" and xs
    using set_take_subset [of m "sort_key g xs"] by simp
  then show ?thesis
    by (simp add: generateOutfitSuggestions_def Let_def)
qed

lemma length_generateOutfitSuggestions:
  "length (generateOutfitSuggestions e w f m) \<le>
   length (suggestions (generate_loop e w f m
          \<lparr> suggestions = [], attempts = 0, random_calls = 0, now_calls = 0 \<rparr>))"
  by (simp add: generateOutfitSuggestions_def Let_def)

lemma unit_interval_sample_env: "unit_interval sample_env"
  by (simp add: unit_interval_def sample_env_def)

text \<open>
  C7. With random numbers in [0,1), every suggestion the generator returns holds
  between two and four items: at most one from the tops, then at most one from the
  bottoms, then at most one from the footwear, then at most one from the accessories.
  Its style tag is "formal" when \<open>isFormal\<close> is true and "casual" otherwise.
\<close>

theorem generateOutfitSuggestions_candidate_shape:
  assumes "unit_interval e"
    and "c \<in> set (generateOutfitSuggestions e w isFormal maxSuggestions)"
  shows "2 \<le> length (items c) \<and> length (items c) \<le> 4
    \<and> (\<exists>ts bs fs acs. items c = ts @ bs @ fs @ acs
          \<and> length ts \<le> 1 \<and> set ts \<subseteq> set (tops w)
          \<and> length bs \<le> 1 \<and> set bs \<subseteq> set (bottoms w)
          \<and> length fs \<le> 1 \<and> set fs \<subseteq> set (footwear w)
          \<and> length acs \<le> 1 \<and> set acs \<subseteq> set (accessories w))
    \<and> style c = (if isFormal then ''formal'' else ''casual'')"
proof -
  let ?shape = "\<lambda>xs. \<exists>ts bs fs acs. xs = ts @ bs @ fs @ acs
          \<and> length ts \<le> 1 \<and> set ts \<subseteq> set (tops w)
          \<and> length bs \<le> 1 \<and> set bs \<subseteq> set (bottoms w)
          \<and> length fs \<le> 1 \<and> set fs \<subseteq> set (footwear w)
          \<and> length acs \<le> 1 \<and> set acs \<subseteq> set (accessories w)"
  let ?good = "\<lambda>s. 2 \<le> length (items s) \<and> ?shape (items s)
                  \<and> style s = (if isFormal then ''formal'' else ''casual'')"
  let ?I = "\<lambda>st. \<forall>s \<in> set (suggestions st). ?good s"
  let ?st0 = "\<lparr> suggestions = [], attempts = 0, random_calls = 0, now_calls = 0 \<rparr>"
  have step: "?I (attempt e w isFormal st)" if "?I st" for st
  proof -
    from attempt_suggestions [of e w isFormal st]
    consider "suggestions (attempt e w isFormal st) = suggestions st"
      | s where "suggestions (attempt e w isFormal st) = suggestions st @ [s]"
          "items s = fst (draw_combination e w (random_calls st))"
          "2 \<le> length (items s)"
          "style s = (if isFormal then ''formal'' else ''casual'')"
      by blast
    then show ?thesis
    proof cases
      case 1
      with that show ?thesis by simp
    next
      case 2
      from draw_combination_shape [OF assms(1), of w "random_calls st"] 2(2)
      have "?shape (items s)"
        by simp
      with 2 that show ?thesis
        by simp
    qed
  qed
  have "?I ?st0"
    by simp
  then have "?I (generate_loop e w isFormal maxSuggestions ?st0)"
    using step by (rule generate_loop_invariant)
  with assms(2) set_generateOutfitSuggestions [of e w isFormal maxSuggestions]
  have good: "?good c"
    by blast
  then obtain ts bs fs acs where "items c = ts @ bs @ fs @ acs"
    "length ts \<le> 1" "length bs \<le> 1" "length fs \<le> 1" "length acs \<le> 1"
    by blast
  then have "length (items c) \<le> 4"
    by simp
  with good show ?thesis
    by blast
qed


theorem generateOutfitSuggestions_candidate_shape_witness:
  "length (generateOutfitSuggestions sample_env sample_wardrobe True 2) = 2
   \<and> list_all (\<lambda>c. 2 \<le> length (items c) \<and> length (items c) \<le> 4 \<and> style c = ''formal'')
        (generateOutfitSuggestions sample_env sample_wardrobe True 2)"
proof -
  have "length (generateOutfitSuggestions sample_env sample_wardrobe True 2) = 2"
    by code_simp
  moreover have "\<forall>c \<in> set (generateOutfitSuggestions sample_env sample_wardrobe True 2).
      2 \<le> length (items c) \<and> length (items c) \<le> 4 \<and> style c = ''formal''"
    using generateOutfitSuggestions_candidate_shape [OF unit_interval_sample_env, of _ sample_wardrobe True 2]
    by simp
  ultimately show ?thesis
    by (simp add: list_all_iff)
qed

text \<open>
  C6. With random numbers in [0,1): the generator returns the empty list when the tops
  and the bottoms are both empty; it never returns more than \<open>maxSuggestions\<close>
  suggestions; and the suggestions it returns are in descending order of score.
\<close>

theorem generateOutfitSuggestions_bounded_sorted:
  assumes "unit_interval e"
  shows "(tops w = [] \<and> bottoms w = [] \<longrightarrow> generateOutfitSuggestions e w isFormal maxSuggestions = [])
    \<and> length (generateOutfitSuggestions e w isFormal maxSuggestions) \<le> maxSuggestions
    \<and> sorted_wrt (\<lambda>a b. score a \<ge> score b) (generateOutfitSuggestions e w isFormal maxSuggestions)"
proof -
  have "sorted_wrt (\<lambda>a b. score a \<ge> score b) (sort_key (\<lambda>s. - score s) xs)"
    for xs :: "suggestion list"
    using sorted_sort_key [of "\<lambda>s. - score s" xs] by (simp add: sorted_map)
  then have "sorted_wrt (\<lambda>a b. score a \<ge> score b) (take maxSuggestions (sort_key (\<lambda>s. - score s) xs))"
    for xs :: "suggestion list"
    by (rule sorted_wrt_take)
  then show ?thesis
    by (simp add: generateOutfitSuggestions_def Let_def)
qed

theorem generateOutfitSuggestions_bounded_sorted_witness:
  "generateOutfitSuggestions sample_env footwear_only False 3 = []
   \<and> length (generateOutfitSuggestions sample_env sample_wardrobe False 3) \<le> 3
   \<and> sorted_wrt (\<lambda>a b. score a \<ge> score b)
        (generateOutfitSuggestions sample_env sample_wardrobe False 3)"
  using generateOutfitSuggestions_bounded_sorted [OF unit_interval_sample_env, of footwear_only False 3]
        generateOutfitSuggestions_bounded_sorted [OF unit_interval_sample_env, of sample_wardrobe False 3]
  by (simp add: footwear_only_def)


subsection \<open>Deduplication\<close>

lemma attempt_distinct_keys:
  assumes "distinct (map (\<lambda>s. combination_key (items s)) (suggestions st))"
  shows "distinct (map (\<lambda>s. combination_key (items s)) (suggestions (attempt e w f st)))"
proof -
  from attempt_suggestions [of e w f st]
  consider "suggestions (attempt e w f st) = suggestions st"
    | s where "suggestions (attempt e w f st) = suggestions st @ [s]"
        "\<not> list_ex (\<lambda>s'. combination_key (items s') = combination_key (items s)) (suggestions st)"
    by blast
  then show ?thesis
  proof cases
    case 1
    with assms show ?thesis by simp
  next
    case 2
    from 2(2) have "combination_key (items s) \<notin> (\<lambda>s. combination_key (items s)) ` set (suggestions st)"
      by (auto simp: list_ex_iff)
    with 2(1) assms show ?thesis
      by simp
  qed
qed

lemma draw_combination_singletons:
  assumes "unit_interval e"
    and "tops w = [t]" and "bottoms w = [b]" and "footwear w = [s]" and "accessories w = [a]"
  shows "fst (draw_combination e w k) \<in> set [[t, b], [t, b, s], [t, b, a], [t, b, s, a]]"
proof -
  have one: "pick [x] (random_values e n) = x" for x n
    using pick_unit_interval [OF assms(1), of "[x]" n] by simp
  show ?thesis
    by (simp add: draw_combination_def Let_def assms(2-5) one)
qed

text \<open>
  C4. When each of the four buckets holds exactly one item, the generator returns at
  most four suggestions whatever \<open>maxSuggestions\<close> and the random numbers are: the top
  and the bottom, with or without the footwear item, with or without the accessory.
\<close>

theorem generateOutfitSuggestions_one_item_per_bucket:
  assumes "unit_interval e"
    and "tops w = [t]" and "bottoms w = [b]" and "footwear w = [s]" and "accessories w = [a]"
  shows "length (generateOutfitSuggestions e w isFormal maxSuggestions) \<le> 4"
proof -
  let ?four = "[[t, b], [t, b, s], [t, b, a], [t, b, s, a]]"
  let ?I = "\<lambda>st. distinct (map (\<lambda>s. combination_key (items s)) (suggestions st))
                \<and> (\<forall>s \<in> set (suggestions st). items s \<in> set ?four)"
  let ?st0 = "\<lparr> suggestions = [], attempts = 0, random_calls = 0, now_calls = 0 \<rparr>"
  let ?xs = "suggestions (generate_loop e w isFormal maxSuggestions ?st0)"
  have step: "?I (attempt e w isFormal st)" if "?I st" for st
  proof -
    from that have d: "distinct (map (\<lambda>s. combination_key (items s))
                         (suggestions (attempt e w isFormal st)))"
      by (simp add: attempt_distinct_keys)
    from attempt_suggestions [of e w isFormal st]
    consider "suggestions (attempt e w isFormal st) = suggestions st"
      | s where "suggestions (attempt e w isFormal st) = suggestions st @ [s]"
          "items s = fst (draw_combination e w (random_calls st))"
      by blast
    then have "\<forall>s \<in> set (suggestions (attempt e w isFormal st)). items s \<in> set ?four"
    proof cases
      case 1
      with that show ?thesis by simp
    next
      case 2
      from draw_combination_singletons [OF assms, of "random_calls st"] 2(2)
      have "items s \<in> set ?four"
        by simp
      with 2(1) that show ?thesis
        by simp
    qed
    with d show ?thesis
      by simp
  qed
  have "?I ?st0"
    by simp
  then have inv: "?I (generate_loop e w isFormal maxSuggestions ?st0)"
    using step by (rule generate_loop_invariant)
  then have "distinct (map combination_key (map items ?xs))"
    by (simp add: o_def)
  then have "distinct (map items ?xs)"
    by (rule distinct_map [THEN iffD1, THEN conjunct1])
  then have "card (set (map items ?xs)) = length (map items ?xs)"
    by (rule distinct_card)
  then have "length ?xs = card (set (map items ?xs))"
    by simp
  also from inv have "\<dots> \<le> card (set ?four)"
    by (intro card_mono) auto
  also have "\<dots> \<le> 4"
    using card_length [of ?four] by simp
  finally have "length ?xs \<le> 4" .
  with length_generateOutfitSuggestions [of e w isFormal maxSuggestions]
  show ?thesis
    by simp
qed

theorem generateOutfitSuggestions_one_item_per_bucket_witness:
  "length (generateOutfitSuggestions sample_env sample_wardrobe False 10) \<le> 4"
  using generateOutfitSuggestions_one_item_per_bucket
          [OF unit_interval_sample_env, of sample_wardrobe sample_top sample_bottom
              sample_shoes sample_scarf False 10]
  by (simp add: sample_wardrobe_def)

text \<open>
  Four is reached: on the sample wardrobe, with \<open>maxSuggestions = 4\<close>, the sample
  random numbers draw the four combinations in four passes and all four are returned.
\<close>

theorem generateOutfitSuggestions_returns_four:
  "unit_interval sample_env
   \<and> tops sample_wardrobe = [sample_top]
   \<and> bottoms sample_wardrobe = [sample_bottom]
   \<and> footwear sample_wardrobe = [sample_shoes]
   \<and> accessories sample_wardrobe = [sample_scarf]
   \<and> map (\<lambda>c. map category (items c))
        (generateOutfitSuggestions sample_env sample_wardrobe False 4) =
      [[''Tops'', ''Bottoms'', ''Footwear'', ''Accessories''],
       [''Tops'', ''Bottoms'', ''Footwear''],
       [''Tops'', ''Bottoms'', ''Accessories''],
       [''Tops'', ''Bottoms'']]
   \<and> \<not> length (generateOutfitSuggestions sample_env sample_wardrobe False 4) \<le> 1"
proof -
  have run: "map (\<lambda>c. map category (items c))
        (generateOutfitSuggestions sample_env sample_wardrobe False 4) =
      [[''Tops'', ''Bottoms'', ''Footwear'', ''Accessories''],
       [''Tops'', ''Bottoms'', ''Footwear''],
       [''Tops'', ''Bottoms'', ''Accessories''],
       [''Tops'', ''Bottoms'']]"
    by code_simp
  from arg_cong [OF run, of length]
  have "length (generateOutfitSuggestions sample_env sample_wardrobe False 4) = 4"
    by simp
  with run unit_interval_sample_env show ?thesis
    by (simp add: sample_wardrobe_def)
qed

lemma generate_loop_distinct_keys:
  "distinct (map (\<lambda>c. combination_key (items c))
     (suggestions (generate_loop e w f m
        \<lparr> suggestions = [], attempts = 0, random_calls = 0, now_calls = 0 \<rparr>)))"
proof -
  let ?I = "\<lambda>st. distinct (map (\<lambda>c. combination_key (items c)) (suggestions st))"
  have "?I \<lparr> suggestions = [], attempts = 0, random_calls = 0, now_calls = 0 \<rparr>"
    by simp
  then show ?thesis
    using attempt_distinct_keys by (rule generate_loop_invariant)
qed

lemma generateOutfitSuggestions_distinct_ids:
  "distinct (map (\<lambda>c. sort (map item_id (items c))) (generateOutfitSuggestions e w f m))"
proof -
  let ?xs = "suggestions (generate_loop e w f m
               \<lparr> suggestions = [], attempts = 0, random_calls = 0, now_calls = 0 \<rparr>)"
  let ?ids = "\<lambda>c. sort (map item_id (items c))"
  from generate_loop_distinct_keys [of e w f m]
  have "distinct (map (join ''-'') (map ?ids ?xs))"
    by (simp add: o_def combination_key_def)
  then have "distinct (map ?ids ?xs)"
    by (rule distinct_map [THEN iffD1, THEN conjunct1])
  then have "distinct (map ?ids (sort_key (\<lambda>s. - score s) ?xs))"
    by (simp add: distinct_map)
  then have "distinct (take m (map ?ids (sort_key (\<lambda>s. - score s) ?xs)))"
    by (rule distinct_take)
  then show ?thesis
    by (simp add: generateOutfitSuggestions_def Let_def take_map)
qed

subsection \<open>The dedup key on the repository's identifiers\<close>

lemma is_digit_not_hyphen: "is_digit c \<Longrightarrow> c \<noteq> CHR ''-''"
  by (auto simp: is_digit_def)

lemma is_base36_not_hyphen: "is_base36 c \<Longrightarrow> c \<noteq> CHR ''-''"
  by (auto simp: is_base36_def is_digit_def)

lemma hyphens_append: "hyphens (a @ b) = hyphens a + hyphens b"
  by (simp add: hyphens_def)

lemma hyphens_none: "\<forall>c \<in> set s. c \<noteq> CHR ''-'' \<Longrightarrow> hyphens s = 0"
  by (simp add: hyphens_def filter_empty_conv)

lemma upload_id_hyphens:
  assumes "upload_id s"
  shows "hyphens s = 2"
proof -
  let ?rest = "drop 5 s"
  from assms obtain suffix where head: "take 5 s = ''item-''"
    and tail: "dropWhile is_digit ?rest = CHR ''-'' # suffix"
    and suffix: "list_all is_base36 suffix"
    by (auto simp: upload_id_def Let_def split: list.splits)
  have "s = take 5 s @ takeWhile is_digit ?rest @ dropWhile is_digit ?rest"
    by simp
  with head tail have s: "s = ''item-'' @ takeWhile is_digit ?rest @ CHR ''-'' # suffix"
    by simp
  have "hyphens (takeWhile is_digit ?rest) = 0"
    by (rule hyphens_none) (auto dest: set_takeWhileD is_digit_not_hyphen)
  moreover from suffix have "hyphens suffix = 0"
    by (intro hyphens_none) (auto simp: list_all_iff dest: is_base36_not_hyphen)
  moreover have "hyphens ''item-'' = 1" and "hyphens (CHR ''-'' # suffix) = 1 + hyphens suffix"
    by (simp_all add: hyphens_def)
  ultimately have "hyphens (''item-'' @ takeWhile is_digit ?rest @ CHR ''-'' # suffix) = 2"
    by (simp only: hyphens_append)
  with s show ?thesis
    by simp
qed

lemma join_Cons: "join sep (x # xs) = x @ (if xs = [] then [] else sep @ join sep xs)"
  by (cases xs) simp_all

lemma split_at_hyphen:
  assumes eq: "x @ r = y @ r'" and h: "hyphens x = hyphens y"
    and r: "r = [] \<or> hd r = CHR ''-''" and r': "r' = [] \<or> hd r' = CHR ''-''"
  shows "x = y \<and> r = r'"
proof -
  from eq obtain us where "(x = y @ us \<and> us @ r = r') \<or> (x @ us = y \<and> r = us @ r')"
    by (auto simp: append_eq_append_conv2)
  then show ?thesis
  proof
    assume a: "x = y @ us \<and> us @ r = r'"
    with h have "hyphens us = 0"
      by (simp add: hyphens_append)
    have "us = []"
    proof (rule ccontr)
      assume "us \<noteq> []"
      with a r' have "hd us = CHR ''-''"
        by auto
      with \<open>us \<noteq> []\<close> have "hyphens us > 0"
        by (cases us) (simp_all add: hyphens_def)
      with \<open>hyphens us = 0\<close> show False
        by simp
    qed
    with a show ?thesis by simp
  next
    assume a: "x @ us = y \<and> r = us @ r'"
    with h have "hyphens us = 0"
      by (auto simp: hyphens_append)
    have "us = []"
    proof (rule ccontr)
      assume "us \<noteq> []"
      with a r have "hd us = CHR ''-''"
        by auto
      with \<open>us \<noteq> []\<close> have "hyphens us > 0"
        by (cases us) (simp_all add: hyphens_def)
      with \<open>hyphens us = 0\<close> show False
        by simp
    qed
    with a show ?thesis by simp
  qed
qed

lemma join_hyphen_inject:
  assumes "\<forall>x \<in> set xs. hyphens x = 2" and "\<forall>y \<in> set ys. hyphens y = 2"
    and "join ''-'' xs = join ''-'' ys"
  shows "xs = ys"
  using assms
proof (induction xs arbitrary: ys)
  case Nil
  show ?case
  proof (cases ys)
    case Nil
    then show ?thesis by simp
  next
    case (Cons y ys')
    with Nil.prems have "hyphens y = 2" and "y @ (if ys' = [] then [] else ''-'' @ join ''-'' ys') = []"
      by (simp_all add: join_Cons)
    then show ?thesis
      by (auto simp: hyphens_def)
  qed
next
  case (Cons x xs)
  show ?case
  proof (cases ys)
    case Nil
    with Cons.prems have "hyphens x = 2" and "x @ (if xs = [] then [] else ''-'' @ join ''-'' xs) = []"
      by (simp_all add: join_Cons)
    then show ?thesis
      by (auto simp: hyphens_def)
  next
    case (Cons y ys')
    let ?r = "if xs = [] then [] else ''-'' @ join ''-'' xs"
    let ?r' = "if ys' = [] then [] else ''-'' @ join ''-'' ys'"
    from Cons Cons.prems have eq: "x @ ?r = y @ ?r'" and h: "hyphens x = hyphens y"
      by (simp_all add: join_Cons)
    have "x = y \<and> ?r = ?r'"
      using eq h by (rule split_at_hyphen) simp_all
    then have xy: "x = y" and rr: "?r = ?r'"
      by simp_all
    have "xs = ys'"
    proof (cases "xs = []")
      case True
      with rr show ?thesis
        by (auto split: if_splits)
    next
      case False
      with rr have "ys' \<noteq> []" and "join ''-'' xs = join ''-'' ys'"
        by (auto split: if_splits)
      with Cons Cons.prems show ?thesis
        by (intro Cons.IH) simp_all
    qed
    with xy Cons show ?thesis
      by simp
  qed
qed

lemma combination_key_eq_iff:
  assumes "\<forall>x \<in> set a. upload_id (item_id x)" and "\<forall>x \<in> set b. upload_id (item_id x)"
  shows "(combination_key a = combination_key b) =
         (sort (map item_id a) = sort (map item_id b))"
proof
  assume "combination_key a = combination_key b"
  then have "join ''-'' (sort (map item_id a)) = join ''-'' (sort (map item_id b))"
    by (simp add: combination_key_def)
  moreover from assms(1) have "\<forall>x \<in> set (sort (map item_id a)). hyphens x = 2"
    by (auto dest: upload_id_hyphens)
  moreover from assms(2) have "\<forall>y \<in> set (sort (map item_id b)). hyphens y = 2"
    by (auto dest: upload_id_hyphens)
  ultimately show "sort (map item_id a) = sort (map item_id b)"
    by (intro join_hyphen_inject) 
next
  assume "sort (map item_id a) = sort (map item_id b)"
  then show "combination_key a = combination_key b"
    by (simp add: combination_key_def)
qed


lemma draw_combination_in_wardrobe:
  assumes "unit_interval e"
  shows "set (fst (draw_combination e w k)) \<subseteq>
         set (tops w @ bottoms w @ footwear w @ accessories w)"
proof -
  from draw_combination_shape [OF assms, of w k]
  obtain ts bs fs acs where "fst (draw_combination e w k) = ts @ bs @ fs @ acs"
    "set ts \<subseteq> set (tops w)" "set bs \<subseteq> set (bottoms w)"
    "set fs \<subseteq> set (footwear w)" "set acs \<subseteq> set (accessories w)"
    by blast
  then show ?thesis
    by auto
qed

lemma attempt_discards_iff:
  assumes "2 \<le> length (fst (draw_combination e w (random_calls st)))"
  shows "(suggestions (attempt e w f st) = suggestions st) =
         list_ex (\<lambda>s. combination_key (items s) =
                       combination_key (fst (draw_combination e w (random_calls st))))
                 (suggestions st)"
  using assms by (auto simp: attempt_def Let_def split: prod.split)

lemma pass_state_items:
  assumes "unit_interval e" and "s \<in> set (suggestions (pass_state e w f n))"
  shows "set (items s) \<subseteq> set (tops w @ bottoms w @ footwear w @ accessories w)"
  using assms(2)
proof (induction n)
  case 0
  then show ?case by simp
next
  case (Suc n)
  let ?st = "pass_state e w f n"
  from attempt_suggestions [of e w f ?st]
  consider "suggestions (attempt e w f ?st) = suggestions ?st"
    | s' where "suggestions (attempt e w f ?st) = suggestions ?st @ [s']"
        "items s' = fst (draw_combination e w (random_calls ?st))"
    by blast
  then show ?case
  proof cases
    case 1
    with Suc show ?thesis by simp
  next
    case 2
    show ?thesis
    proof (cases "s = s'")
      case True
      with 2(2) draw_combination_in_wardrobe [OF assms(1), of w "random_calls ?st"]
      show ?thesis by simp
    next
      case False
      with 2(1) Suc.prems have "s \<in> set (suggestions ?st)"
        by simp
      then show ?thesis by (rule Suc.IH)
    qed
  qed
qed

lemma pass_state_distinct_keys:
  "distinct (map (\<lambda>c. combination_key (items c)) (suggestions (pass_state e w f n)))"
  by (induction n) (simp_all add: attempt_distinct_keys)

lemma distinct_sorted_ids:
  assumes "distinct (map (\<lambda>c. combination_key (items c)) xs)"
  shows "distinct (map (\<lambda>c. sort (map item_id (items c))) xs)"
proof -
  from assms have "distinct (map (join ''-'') (map (\<lambda>c. sort (map item_id (items c))) xs))"
    by (simp add: o_def combination_key_def)
  then show ?thesis
    by (rule distinct_map [THEN iffD1, THEN conjunct1])
qed

lemma pass_state_admitted:
  assumes "r \<in> set (suggestions (pass_state e w f n))"
  shows "\<exists>k. suggestions (pass_state e w f (Suc k)) = suggestions (pass_state e w f k) @ [r]
             \<and> combination_key (items r) =
               combination_key (fst (draw_combination e w (random_calls (pass_state e w f k))))"
  using assms
proof (induction n)
  case 0
  then show ?case by simp
next
  case (Suc n)
  let ?st = "pass_state e w f n"
  from attempt_suggestions [of e w f ?st]
  consider "suggestions (attempt e w f ?st) = suggestions ?st"
    | s' where "suggestions (attempt e w f ?st) = suggestions ?st @ [s']"
        "items s' = fst (draw_combination e w (random_calls ?st))"
    by blast
  then show ?case
  proof cases
    case 1
    with Suc show ?thesis by simp
  next
    case 2
    show ?thesis
    proof (cases "r = s'")
      case True
      with 2 have "suggestions (pass_state e w f (Suc n)) = suggestions ?st @ [r]
          \<and> combination_key (items r) =
            combination_key (fst (draw_combination e w (random_calls ?st)))"
        by simp
      then show ?thesis by blast
    next
      case False
      with 2(1) Suc.prems have "r \<in> set (suggestions ?st)"
        by simp
      then show ?thesis by (rule Suc.IH)
    qed
  qed
qed

lemma generate_loop_pass_state:
  "\<exists>n. generate_loop e w f m
          \<lparr> suggestions = [], attempts = 0, random_calls = 0, now_calls = 0 \<rparr> =
        pass_state e w f n"
proof -
  let ?I = "\<lambda>st. \<exists>n. st = pass_state e w f n"
  have "?I \<lparr> suggestions = [], attempts = 0, random_calls = 0, now_calls = 0 \<rparr>"
    using pass_state.simps(1) [of e w f] by metis
  moreover have "?I (attempt e w f st)" if "?I st" for st
    using that pass_state.simps(2) [of e w f] by metis
  ultimately show ?thesis
    by (rule generate_loop_invariant)
qed

text \<open>
  C2. Take a wardrobe whose identifiers have the shape the repository gives them and
  random numbers in [0,1). After any number of passes the accepted suggestions have
  pairwise different sorted identifier lists. A drawn combination of two or more items
  leaves the accepted list unchanged exactly when its sorted identifier list equals
  that of an accepted suggestion. The returned suggestions have pairwise different
  sorted identifier lists, and each of them was appended in some pass whose dedup key
  equals the key recomputed from its \<open>items\<close>.
\<close>

theorem dedup_by_sorted_ids:
  assumes "unit_interval e"
    and "\<forall>x \<in> set (tops w @ bottoms w @ footwear w @ accessories w). upload_id (item_id x)"
  shows "distinct (map (\<lambda>c. sort (map item_id (items c)))
                    (suggestions (pass_state e w isFormal n)))
    \<and> (let st = pass_state e w isFormal n;
            combination = fst (draw_combination e w (random_calls st))
        in 2 \<le> length combination \<longrightarrow>
           (suggestions (pass_state e w isFormal (Suc n)) = suggestions st) =
           (\<exists>s \<in> set (suggestions st).
              sort (map item_id (items s)) = sort (map item_id combination)))
    \<and> distinct (map (\<lambda>c. sort (map item_id (items c)))
                  (generateOutfitSuggestions e w isFormal maxSuggestions))
    \<and> (\<forall>r \<in> set (generateOutfitSuggestions e w isFormal maxSuggestions).
          \<exists>k. suggestions (pass_state e w isFormal (Suc k)) =
                 suggestions (pass_state e w isFormal k) @ [r]
             \<and> combination_key (items r) =
               combination_key (fst (draw_combination e w
                                      (random_calls (pass_state e w isFormal k)))))"
proof -
  let ?st = "pass_state e w isFormal n"
  let ?c = "fst (draw_combination e w (random_calls ?st))"
  let ?all = "tops w @ bottoms w @ footwear w @ accessories w"
  have accepted: "distinct (map (\<lambda>c. sort (map item_id (items c))) (suggestions ?st))"
    by (rule distinct_sorted_ids) (rule pass_state_distinct_keys)
  have drawn: "\<forall>x \<in> set ?c. upload_id (item_id x)"
    using draw_combination_in_wardrobe [OF assms(1), of w "random_calls ?st"] assms(2)
    by blast
  have key: "(combination_key (items s) = combination_key ?c) =
             (sort (map item_id (items s)) = sort (map item_id ?c))"
    if "s \<in> set (suggestions ?st)" for s
  proof -
    from pass_state_items [OF assms(1) that] assms(2)
    have "\<forall>x \<in> set (items s). upload_id (item_id x)"
      by blast
    then show ?thesis
      using drawn by (rule combination_key_eq_iff)
  qed
  have discard: "(suggestions (pass_state e w isFormal (Suc n)) = suggestions ?st) =
      (\<exists>s \<in> set (suggestions ?st). sort (map item_id (items s)) = sort (map item_id ?c))"
    if "2 \<le> length ?c"
    using attempt_discards_iff [OF that, of isFormal] key
    by (auto simp: list_ex_iff)
  have returned: "distinct (map (\<lambda>c. sort (map item_id (items c)))
                    (generateOutfitSuggestions e w isFormal maxSuggestions))"
    by (rule generateOutfitSuggestions_distinct_ids)
  have admitted: "\<exists>k. suggestions (pass_state e w isFormal (Suc k)) =
                 suggestions (pass_state e w isFormal k) @ [r]
             \<and> combination_key (items r) =
               combination_key (fst (draw_combination e w
                                      (random_calls (pass_state e w isFormal k))))"
    if "r \<in> set (generateOutfitSuggestions e w isFormal maxSuggestions)" for r
  proof -
    from generate_loop_pass_state [of e w isFormal maxSuggestions]
    obtain m where "generate_loop e w isFormal maxSuggestions
          \<lparr> suggestions = [], attempts = 0, random_calls = 0, now_calls = 0 \<rparr> =
        pass_state e w isFormal m" ..
    with that set_generateOutfitSuggestions [of e w isFormal maxSuggestions]
    have "r \<in> set (suggestions (pass_state e w isFormal m))"
      by auto
    then show ?thesis
      by (rule pass_state_admitted)
  qed
  from accepted discard returned admitted show ?thesis
    by (simp add: Let_def)
qed

theorem dedup_by_sorted_ids_witness:
  "length (suggestions (pass_state sample_env sample_wardrobe False 4)) = 4
   \<and> suggestions (pass_state sample_env sample_wardrobe False 5) =
     suggestions (pass_state sample_env sample_wardrobe False 4)
   \<and> distinct (map (\<lambda>c. sort (map item_id (items c)))
                 (generateOutfitSuggestions sample_env sample_wardrobe False 4))"
proof -
  let ?st = "pass_state sample_env sample_wardrobe False 4"
  let ?c = "fst (draw_combination sample_env sample_wardrobe (random_calls ?st))"
  have ids: "\<forall>x \<in> set (tops sample_wardrobe @ bottoms sample_wardrobe @
                         footwear sample_wardrobe @ accessories sample_wardrobe).
               upload_id (item_id x)"
    by code_simp
  have four: "length (suggestions ?st) = 4"
    by code_simp
  have len: "2 \<le> length ?c"
    by code_simp
  have same: "list_ex (\<lambda>s. sort (map item_id (items s)) = sort (map item_id ?c)) (suggestions ?st)"
    by code_simp
  from dedup_by_sorted_ids [OF unit_interval_sample_env ids, of False 4 4] four len same
  show ?thesis
    by (simp add: Let_def list_ex_iff)
qed

end
